theory Spec2Isabelle
  imports Main
begin

section \<open>Data model\<close>

text \<open>
  The user table of \<^verbatim>\<open>src/index.js\<close>, with the fields the handlers read and write.
  Timestamps are milliseconds since the epoch, as \<^verbatim>\<open>Date.now()\<close> gives them; a nullable
  column is an option. The table is a list in storage order, which is the order
  \<^verbatim>\<open>findFirst\<close> searches.
\<close>

record user =
  user_id :: nat
  email :: string
  name :: "string option"
  verified :: bool
  createdAt :: int
  magicLinkToken :: "string option"
  magicLinkExpires :: "int option"
  magicLinkUsed :: bool

text \<open>
  Every call the handlers make on the repository or on the mail transport is recorded,
  in the order the handler awaits them.
\<close>

datatype event =
    FindUniqueEmail string
  | FindUniqueId nat
  | FindFirstToken string
  | CreateUser string
  | UpdateEmail string
  | UpdateId nat
  | UpdateMany
  | SendMail string "string option" string

record state =
  users :: "user list"
  trace :: "event list"

text \<open>
  What a request reads from outside the store: the clock, the 32 random bytes in hex that
  \<^verbatim>\<open>crypto.randomBytes(32).toString("hex")\<close> returns, and whether the SMTP transport
  delivers.
\<close>

record env =
  now :: int
  random_token :: string
  smtp_ok :: bool

record cfg =
  jwt_secret :: string
  api_base_url :: string
  production :: bool

subsection \<open>Session credentials\<close>

text \<open>
  The payload \<^verbatim>\<open>jwt.sign\<close> is given, with the issued-at and expiry claims (in seconds)
  that the library adds for \<^verbatim>\<open>expiresIn: "7d"\<close>.
\<close>

record claims =
  jwt_userId :: nat
  jwt_email :: string
  jwt_verified :: bool
  jwt_iat :: int
  jwt_exp :: int

text \<open>
  A cookie value is either a string that is no well-formed token, or a token: its claims
  and the secret its signature was computed with. \<^verbatim>\<open>jwt.sign\<close> and \<^verbatim>\<open>jwt.verify\<close>
  are the calls of the \<^verbatim>\<open>jsonwebtoken\<close> library: verification rejects a malformed
  string or a signature under another secret, and then a token whose expiry is not after
  the clock, read in seconds.
\<close>

datatype credential = Opaque string | Jwt string claims

datatype jwt_error = JsonWebTokenError | TokenExpiredError

definition jwt_sign :: "claims \<Rightarrow> string \<Rightarrow> credential" where
  "jwt_sign payload secret = Jwt secret payload"

definition jwt_verify :: "int \<Rightarrow> credential \<Rightarrow> string \<Rightarrow> jwt_error + claims" where
  "jwt_verify clock tok secret =
     (case tok of
        Opaque _ \<Rightarrow> Inl JsonWebTokenError
      | Jwt key payload \<Rightarrow>
          if key \<noteq> secret then Inl JsonWebTokenError
          else if clock div 1000 \<ge> jwt_exp payload then Inl TokenExpiredError
          else Inr payload)"

subsection \<open>Responses\<close>

datatype resp_data =
    NoData
  | EmailName string "string option"
  | VerifiedUser nat string "string option" bool
  | Profile nat string "string option" bool int

record cookie =
  cookie_name :: string
  cookie_value :: credential
  httpOnly :: bool
  secure :: bool
  sameSite :: string
  maxAge :: int

record response =
  status :: nat
  success :: bool
  message :: string
  data :: resp_data
  set_cookie :: "cookie option"

definition failure :: "nat \<Rightarrow> string \<Rightarrow> response" where
  "failure code msg =
     \<lparr>status = code, success = False, message = msg, data = NoData, set_cookie = None\<rparr>"

definition ok :: "string \<Rightarrow> resp_data \<Rightarrow> response" where
  "ok msg d = \<lparr>status = 200, success = True, message = msg, data = d, set_cookie = None\<rparr>"

section \<open>The repository and the mail transport\<close>

definition record_event :: "event \<Rightarrow> state \<Rightarrow> state" where
  "record_event e s = s\<lparr>trace := trace s @ [e]\<rparr>"

definition findUnique_email :: "string \<Rightarrow> state \<Rightarrow> user option \<times> state" where
  "findUnique_email e s =
     (find (\<lambda>u. email u = e) (users s), record_event (FindUniqueEmail e) s)"

definition findUnique_id :: "nat \<Rightarrow> state \<Rightarrow> user option \<times> state" where
  "findUnique_id i s =
     (find (\<lambda>u. user_id u = i) (users s), record_event (FindUniqueId i) s)"

text \<open>
  The filter of the verification query: \<^verbatim>\<open>magicLinkToken: token\<close>,
  \<^verbatim>\<open>magicLinkUsed: false\<close>, \<^verbatim>\<open>magicLinkExpires: { gt: new Date() }\<close>. A null column
  satisfies neither the equality nor the comparison.
\<close>

definition token_matches :: "string \<Rightarrow> int \<Rightarrow> user \<Rightarrow> bool" where
  "token_matches token clock u \<longleftrightarrow>
     magicLinkToken u = Some token \<and> \<not> magicLinkUsed u \<and>
     (case magicLinkExpires u of None \<Rightarrow> False | Some e \<Rightarrow> e > clock)"

definition findFirst_token :: "string \<Rightarrow> int \<Rightarrow> state \<Rightarrow> user option \<times> state" where
  "findFirst_token token clock s =
     (find (token_matches token clock) (users s), record_event (FindFirstToken token) s)"

text \<open>
  \<^verbatim>\<open>update\<close> on a unique key rewrites the record with that key and returns it, and
  throws when there is none (the result \<open>None\<close>, the table unchanged).
\<close>

definition update_where :: "(user \<Rightarrow> bool) \<Rightarrow> (user \<Rightarrow> user) \<Rightarrow> user list \<Rightarrow> (user \<times> user list) option" where
  "update_where p f us =
     (case find p us of
        None \<Rightarrow> None
      | Some u \<Rightarrow> Some (f u, map (\<lambda>x. if p x then f x else x) us))"

definition update_email :: "string \<Rightarrow> (user \<Rightarrow> user) \<Rightarrow> state \<Rightarrow> user option \<times> state" where
  "update_email e f s =
     (case update_where (\<lambda>u. email u = e) f (users s) of
        None \<Rightarrow> (None, record_event (UpdateEmail e) s)
      | Some (u, us) \<Rightarrow> (Some u, record_event (UpdateEmail e) (s\<lparr>users := us\<rparr>)))"

definition update_id :: "nat \<Rightarrow> (user \<Rightarrow> user) \<Rightarrow> state \<Rightarrow> user option \<times> state" where
  "update_id i f s =
     (case update_where (\<lambda>u. user_id u = i) f (users s) of
        None \<Rightarrow> (None, record_event (UpdateId i) s)
      | Some (u, us) \<Rightarrow> (Some u, record_event (UpdateId i) (s\<lparr>users := us\<rparr>)))"

text \<open>
  Modelled from the spec: the Prisma schema is not part of the source. The spec has a
  unique id, a unique email, \<open>verified = false\<close> on creation and a creation timestamp;
  the new id is one that no stored record has.
\<close>

definition fresh_id :: "user list \<Rightarrow> nat" where
  "fresh_id us = Suc (foldr max (map user_id us) 0)"

definition create_user ::
  "int \<Rightarrow> string \<Rightarrow> string option \<Rightarrow> string \<Rightarrow> int \<Rightarrow> state \<Rightarrow> user option \<times> state" where
  "create_user clock e n token expiresAt s =
     (if find (\<lambda>u. email u = e) (users s) \<noteq> None
      then (None, record_event (CreateUser e) s)
      else
        let u = \<lparr>user_id = fresh_id (users s), email = e, name = n, verified = False,
                 createdAt = clock, magicLinkToken = Some token,
                 magicLinkExpires = Some expiresAt, magicLinkUsed = False\<rparr>
        in (Some u, record_event (CreateUser e) (s\<lparr>users := users s @ [u]\<rparr>)))"

text \<open>
  The filter of the sweep: \<^verbatim>\<open>magicLinkExpires: { lt: new Date() }\<close> and
  \<^verbatim>\<open>magicLinkToken: { not: null }\<close>.
\<close>

definition expired_token :: "int \<Rightarrow> user \<Rightarrow> bool" where
  "expired_token clock u \<longleftrightarrow>
     (case magicLinkExpires u of None \<Rightarrow> False | Some e \<Rightarrow> e < clock) \<and>
     magicLinkToken u \<noteq> None"

definition clear_link :: "user \<Rightarrow> user" where
  "clear_link u = u\<lparr>magicLinkToken := None, magicLinkExpires := None, magicLinkUsed := False\<rparr>"

definition updateMany_expired :: "int \<Rightarrow> state \<Rightarrow> nat \<times> state" where
  "updateMany_expired clock s =
     (length (filter (expired_token clock) (users s)),
      record_event UpdateMany
        (s\<lparr>users := map (\<lambda>u. if expired_token clock u then clear_link u else u) (users s)\<rparr>))"

text \<open>
  \<^verbatim>\<open>sendMagicLinkEmail\<close>: the result \<open>False\<close> is the rethrown
  \<^verbatim>\<open>Error("Failed to send email")\<close>.
\<close>

definition sendMagicLinkEmail ::
  "env \<Rightarrow> string \<Rightarrow> string option \<Rightarrow> string \<Rightarrow> state \<Rightarrow> bool \<times> state" where
  "sendMagicLinkEmail en e n magicLinkUrl s =
     (smtp_ok en, record_event (SendMail e n magicLinkUrl) s)"

section \<open>The handlers\<close>

text \<open>
  A request field is absent (\<open>None\<close>) or a string. \<^verbatim>\<open>!x\<close> holds for an absent field
  and for the empty string.
\<close>

definition falsy :: "string option \<Rightarrow> bool" where
  "falsy x \<longleftrightarrow> (case x of None \<Rightarrow> True | Some v \<Rightarrow> v = [])"

definition includes_at :: "string \<Rightarrow> bool" where
  "includes_at e \<longleftrightarrow> CHR ''@'' \<in> set e"

definition magic_link :: "cfg \<Rightarrow> string \<Rightarrow> string" where
  "magic_link c token = api_base_url c @ ''/verify?token='' @ token"

definition expiry :: "env \<Rightarrow> int" where
  "expiry en = now en + 15 * 60 * 1000"

definition issue_link :: "env \<Rightarrow> user \<Rightarrow> user" where
  "issue_link en u =
     u\<lparr>magicLinkToken := Some (random_token en),
       magicLinkExpires := Some (expiry en),
       magicLinkUsed := False\<rparr>"

definition signup ::
  "cfg \<Rightarrow> env \<Rightarrow> string option \<Rightarrow> string option \<Rightarrow> state \<Rightarrow> response \<times> state" where
  "signup c en email_in name_in s =
     (case email_in of
        None \<Rightarrow> (failure 400 ''Valid email is required'', s)
      | Some e \<Rightarrow>
          if e = [] \<or> \<not> includes_at e then (failure 400 ''Valid email is required'', s)
          else
            let (found, s1) = findUnique_email e s in
            if (case found of None \<Rightarrow> False | Some u \<Rightarrow> verified u)
            then (failure 409 ''Account already exists and verified'', s1)
            else
              let (saved, s2) =
                    (case found of
                       Some u \<Rightarrow>
                         update_email e
                           (\<lambda>x. issue_link en
                                  (x\<lparr>name := (if falsy name_in then name u else name_in)\<rparr>)) s1
                     | None \<Rightarrow> create_user (now en) e name_in (random_token en) (expiry en) s1)
              in (case saved of
                    None \<Rightarrow> (failure 500 ''Failed to create account. Please try again.'', s2)
                  | Some u' \<Rightarrow>
                      let (sent, s3) =
                            sendMagicLinkEmail en e name_in (magic_link c (random_token en)) s2
                      in if sent
                         then (ok ''Verification link sent to your email! Check your inbox.''
                                 (EmailName (email u') (name u')), s3)
                         else (failure 500 ''Failed to create account. Please try again.'', s3)))"

definition login :: "cfg \<Rightarrow> env \<Rightarrow> string option \<Rightarrow> state \<Rightarrow> response \<times> state" where
  "login c en email_in s =
     (case email_in of
        None \<Rightarrow> (failure 400 ''Valid email is required'', s)
      | Some e \<Rightarrow>
          if e = [] \<or> \<not> includes_at e then (failure 400 ''Valid email is required'', s)
          else
            let (found, s1) = findUnique_email e s in
            (case found of
               None \<Rightarrow> (failure 404 ''No verified account found with this email'', s1)
             | Some u \<Rightarrow>
                 if \<not> verified u
                 then (failure 404 ''No verified account found with this email'', s1)
                 else
                   let (saved, s2) = update_email e (issue_link en) s1 in
                   (case saved of
                      None \<Rightarrow> (failure 500 ''Failed to send login link. Please try again.'', s2)
                    | Some _ \<Rightarrow>
                        let (sent, s3) =
                              sendMagicLinkEmail en e (name u) (magic_link c (random_token en)) s2
                        in if sent
                           then (ok ''Login link sent to your email! Check your inbox.''
                                   (EmailName (email u) (name u)), s3)
                           else (failure 500 ''Failed to send login link. Please try again.'',
                                 s3))))"

definition resend :: "cfg \<Rightarrow> env \<Rightarrow> string option \<Rightarrow> state \<Rightarrow> response \<times> state" where
  "resend c en email_in s =
     (case email_in of
        None \<Rightarrow> (failure 400 ''Valid email is required'', s)
      | Some e \<Rightarrow>
          if e = [] \<or> \<not> includes_at e then (failure 400 ''Valid email is required'', s)
          else
            let (found, s1) = findUnique_email e s in
            (case found of
               None \<Rightarrow> (failure 404 ''No account found with this email'', s1)
             | Some u \<Rightarrow>
                 if verified u then (failure 400 ''Account is already verified'', s1)
                 else
                   let (saved, s2) = update_email e (issue_link en) s1 in
                   (case saved of
                      None \<Rightarrow>
                        (failure 500 ''Failed to send verification link. Please try again.'', s2)
                    | Some _ \<Rightarrow>
                        let (sent, s3) =
                              sendMagicLinkEmail en e (name u) (magic_link c (random_token en)) s2
                        in if sent
                           then (ok ''New verification link sent to your email!''
                                   (EmailName (email u) (name u)), s3)
                           else
                             (failure 500 ''Failed to send verification link. Please try again.'',
                              s3))))"

text \<open>
  The verification handler awaits the repository twice: the lookup by the validity
  filter, and then the update of the record with the id the lookup returned. The two
  parts are defined apart, and \<open>verify\<close> runs one after the other as the handler does.
\<close>

definition consume_link :: "user \<Rightarrow> user" where
  "consume_link u =
     u\<lparr>verified := True, magicLinkToken := None, magicLinkExpires := None,
       magicLinkUsed := True\<rparr>"

definition session_claims :: "env \<Rightarrow> user \<Rightarrow> claims" where
  "session_claims en u =
     \<lparr>jwt_userId = user_id u, jwt_email = email u, jwt_verified = True,
      jwt_iat = now en div 1000, jwt_exp = now en div 1000 + 7 * 24 * 60 * 60\<rparr>"

definition auth_cookie :: "cfg \<Rightarrow> credential \<Rightarrow> cookie" where
  "auth_cookie c jwtToken =
     \<lparr>cookie_name = ''auth_token'', cookie_value = jwtToken, httpOnly = True,
      secure = production c, sameSite = ''strict'', maxAge = 7 * 24 * 60 * 60 * 1000\<rparr>"

definition verify_lookup :: "env \<Rightarrow> string \<Rightarrow> state \<Rightarrow> user option \<times> state" where
  "verify_lookup en token s = findFirst_token token (now en) s"

definition verify_consume :: "cfg \<Rightarrow> env \<Rightarrow> user \<Rightarrow> state \<Rightarrow> response \<times> state" where
  "verify_consume c en u s =
     (let (saved, s1) = update_id (user_id u) consume_link s in
      (case saved of
         None \<Rightarrow> (failure 500 ''Verification failed. Please try again.'', s1)
       | Some updatedUser \<Rightarrow>
           let jwtToken = jwt_sign (session_claims en u) (jwt_secret c) in
           ((ok ''Successfully authenticated! Welcome back!''
               (VerifiedUser (user_id updatedUser) (email updatedUser) (name updatedUser)
                  (verified updatedUser)))
              \<lparr>set_cookie := Some (auth_cookie c jwtToken)\<rparr>, s1)))"

definition verify :: "cfg \<Rightarrow> env \<Rightarrow> string option \<Rightarrow> state \<Rightarrow> response \<times> state" where
  "verify c en token_in s =
     (case token_in of
        None \<Rightarrow> (failure 400 ''Verification token is required'', s)
      | Some token \<Rightarrow>
          if token = [] then (failure 400 ''Verification token is required'', s)
          else
            let (found, s1) = verify_lookup en token s in
            (case found of
               None \<Rightarrow> (failure 400 ''Invalid or expired verification link'', s1)
             | Some u \<Rightarrow> verify_consume c en u s1))"

definition me :: "cfg \<Rightarrow> env \<Rightarrow> credential option \<Rightarrow> state \<Rightarrow> response \<times> state" where
  "me c en cookie_in s =
     (case cookie_in of
        None \<Rightarrow> (failure 401 ''Authentication required'', s)
      | Some token \<Rightarrow>
          if token = Opaque [] then (failure 401 ''Authentication required'', s)
          else
            (case jwt_verify (now en) token (jwt_secret c) of
               Inl _ \<Rightarrow> (failure 401 ''Invalid token'', s)
             | Inr decoded \<Rightarrow>
                 let (found, s1) = findUnique_id (jwt_userId decoded) s in
                 (case found of
                    None \<Rightarrow> (failure 401 ''User not found'', s1)
                  | Some u \<Rightarrow>
                      (ok [] (Profile (user_id u) (email u) (name u) (verified u) (createdAt u)),
                       s1))))"

definition cleanupExpiredTokens :: "env \<Rightarrow> state \<Rightarrow> state" where
  "cleanupExpiredTokens en s = snd (updateMany_expired (now en) s)"

section \<open>Requests and runs\<close>

datatype request =
    Signup "string option" "string option"
  | Login "string option"
  | Resend "string option"
  | Verify "string option"
  | Me "credential option"

fun handle :: "cfg \<Rightarrow> env \<Rightarrow> request \<Rightarrow> state \<Rightarrow> response \<times> state" where
  "handle c en (Signup e n) s = signup c en e n s"
| "handle c en (Login e) s = login c en e s"
| "handle c en (Resend e) s = resend c en e s"
| "handle c en (Verify t) s = verify c en t s"
| "handle c en (Me k) s = me c en k s"

text \<open>The three operations that issue a link, and the email each is asked for.\<close>

fun is_issuance :: "request \<Rightarrow> bool" where
  "is_issuance (Signup e n) = True"
| "is_issuance (Login e) = True"
| "is_issuance (Resend e) = True"
| "is_issuance (Verify t) = False"
| "is_issuance (Me k) = False"

fun email_of :: "request \<Rightarrow> string option" where
  "email_of (Signup e n) = e"
| "email_of (Login e) = e"
| "email_of (Resend e) = e"
| "email_of (Verify t) = None"
| "email_of (Me k) = None"

text \<open>
  A run of the server: requests and timer ticks of the hourly sweep, each with what it
  reads from outside the store.
\<close>

datatype action = Request request | Sweep

fun act :: "cfg \<Rightarrow> env \<times> action \<Rightarrow> state \<Rightarrow> state" where
  "act c (en, Request rq) s = snd (handle c en rq s)"
| "act c (en, Sweep) s = cleanupExpiredTokens en s"

fun run :: "cfg \<Rightarrow> (env \<times> action) list \<Rightarrow> state \<Rightarrow> state" where
  "run c [] s = s"
| "run c (a # as) s = run c as (act c a s)"



section \<open>Two verifications in flight\<close>






section \<open>Predicates of the statements\<close>

text \<open>The input check of the three issuing handlers fails.\<close>

definition rejected :: "string option \<Rightarrow> bool" where
  "rejected x \<longleftrightarrow> (case x of None \<Rightarrow> True | Some e \<Rightarrow> e = [] \<or> CHR ''@'' \<notin> set e)"

text \<open>
  What an issuance for the email \<open>e\<close> that got past its checks has done: looked the
  email up, written the record, then called the mail transport; every record with that
  email holds the new link.
\<close>

definition issued :: "cfg \<Rightarrow> env \<Rightarrow> string \<Rightarrow> state \<Rightarrow> response \<Rightarrow> state \<Rightarrow> bool" where
  "issued c en e s r s' \<longleftrightarrow>
     (\<exists>w nm. (w = UpdateEmail e \<or> w = CreateUser e) \<and>
        trace s' =
          trace s @ [FindUniqueEmail e, w, SendMail e nm (magic_link c (random_token en))]) \<and>
     (\<exists>x \<in> set (users s'). email x = e) \<and>
     (\<forall>x \<in> set (users s'). email x = e \<longrightarrow>
        magicLinkToken x = Some (random_token en) \<and>
        magicLinkExpires x = Some (now en + 900000) \<and> \<not> magicLinkUsed x) \<and>
     (\<forall>x \<in> set (users s'). email x \<noteq> e \<longrightarrow> x \<in> set (users s)) \<and>
     status r = (if smtp_ok en then 200 else 500) \<and> success r = smtp_ok en"

text \<open>The uniqueness constraints of the schema on the stored table.\<close>

definition unique_keys :: "user list \<Rightarrow> bool" where
  "unique_keys us \<longleftrightarrow> distinct (map user_id us) \<and> distinct (map email us)"

section \<open>A small store for concrete runs\<close>

definition demo_cfg :: cfg where
  "demo_cfg = \<lparr>jwt_secret = ''k'', api_base_url = ''http://h'', production = False\<rparr>"

definition demo_env :: env where
  "demo_env = \<lparr>now = 1000, random_token = ''t9'', smtp_ok = True\<rparr>"

definition alice :: user where
  "alice = \<lparr>user_id = 1, email = ''a@x'', name = Some ''A'', verified = False,
            createdAt = 0, magicLinkToken = Some ''t1'', magicLinkExpires = Some 5000,
            magicLinkUsed = False\<rparr>"

definition bob :: user where
  "bob = \<lparr>user_id = 2, email = ''b@x'', name = None, verified = True,
          createdAt = 0, magicLinkToken = Some ''t2'', magicLinkExpires = Some 500,
          magicLinkUsed = False\<rparr>"

definition carol :: user where
  "carol = \<lparr>user_id = 3, email = ''c@x'', name = Some ''C'', verified = True,
            createdAt = 0, magicLinkToken = None, magicLinkExpires = None,
            magicLinkUsed = True\<rparr>"

definition demo_state :: state where
  "demo_state = \<lparr>users = [alice, bob, carol], trace = []\<rparr>"

definition demo_env_down :: env where
  "demo_env_down = \<lparr>now = 1000, random_token = ''t9'', smtp_ok = False\<rparr>"



section \<open>Lookups in the table\<close>

lemma find_Some_mem: "find p xs = Some x \<Longrightarrow> x \<in> set xs \<and> p x"
  by (induction xs) (auto split: if_splits)

lemma find_unique_key:
  "distinct (map k us) \<Longrightarrow> u \<in> set us \<Longrightarrow> find (\<lambda>x. k x = k u) us = Some u"
  by (induction us) (auto simp: image_iff)

lemma find_by_id_of_found:
  "find p us = Some u \<Longrightarrow>
     \<exists>w. find (\<lambda>x. user_id x = user_id u) us = Some w \<and> user_id w = user_id u"
  by (cases "find (\<lambda>x. user_id x = user_id u) us")
     (auto simp: find_None_iff dest: find_Some_mem)


text \<open>Facts of the small store.\<close>

lemma demo_unique: "unique_keys (users demo_state)"
  by (simp add: unique_keys_def demo_state_def alice_def bob_def carol_def)



section \<open>Verification\<close>

lemma verify_found:
  assumes "find (token_matches token (now en)) (users s) = Some u" "token \<noteq> []"
  shows "\<exists>w. find (\<lambda>x. user_id x = user_id u) (users s) = Some w \<and>
     verify c en (Some token) s =
     ((ok ''Successfully authenticated! Welcome back!''
         (VerifiedUser (user_id u) (email w) (name w) True))
        \<lparr>set_cookie := Some (auth_cookie c (jwt_sign (session_claims en u) (jwt_secret c)))\<rparr>,
      \<lparr>users = map (\<lambda>x. if user_id x = user_id u then consume_link x else x) (users s),
       trace = trace s @ [FindFirstToken token, UpdateId (user_id u)]\<rparr>)"
proof -
  obtain w where w: "find (\<lambda>x. user_id x = user_id u) (users s) = Some w"
      "user_id w = user_id u"
    using find_by_id_of_found[OF assms(1)] by auto
  show ?thesis
    using assms w
    by (simp add: verify_def verify_lookup_def findFirst_token_def verify_consume_def
        update_id_def update_where_def record_event_def consume_link_def)
qed

lemma verify_not_found:
  assumes "find (token_matches token (now en)) (users s) = None" "token \<noteq> []"
  shows "verify c en (Some token) s =
     (failure 400 ''Invalid or expired verification link'',
      s\<lparr>trace := trace s @ [FindFirstToken token]\<rparr>)"
  using assms
  by (simp add: verify_def verify_lookup_def findFirst_token_def record_event_def)





section \<open>The sweep\<close>

lemma cleanup_users:
  "users (cleanupExpiredTokens en s) =
     map (\<lambda>u. if expired_token (now en) u then clear_link u else u) (users s)"
  by (simp add: cleanupExpiredTokens_def updateMany_expired_def record_event_def)

text \<open>
  C7. A sweep keeps the table's length and order. The record at each position is
  rewritten to token null, expiry null, \<open>used = false\<close> exactly when its expiry is
  strictly before the current time and its token is not null, and is left as it was
  otherwise; a record with a null token is never changed.
\<close>

theorem cleanup_exact:
  assumes "i < length (users s)"
  shows "length (users (cleanupExpiredTokens en s)) = length (users s) \<and>
    (let u = users s ! i; u' = users (cleanupExpiredTokens en s) ! i in
      (if (\<exists>e. magicLinkExpires u = Some e \<and> e < now en) \<and> magicLinkToken u \<noteq> None
       then u' = u\<lparr>magicLinkToken := None, magicLinkExpires := None, magicLinkUsed := False\<rparr>
       else u' = u) \<and>
      (magicLinkToken u = None \<longrightarrow> u' = u))"
  using assms
  by (auto simp: cleanup_users expired_token_def clear_link_def Let_def split: option.splits)

theorem cleanup_exact_witness:
  "(1::nat) < length (users demo_state) \<and>
   users (cleanupExpiredTokens demo_env demo_state) ! 1 =
     bob\<lparr>magicLinkToken := None, magicLinkExpires := None, magicLinkUsed := False\<rparr> \<and>
   users (cleanupExpiredTokens demo_env demo_state) ! 0 = alice \<and>
   users (cleanupExpiredTokens demo_env demo_state) ! 2 = carol"
  using cleanup_exact[of 1 demo_state demo_env] cleanup_exact[of 0 demo_state demo_env]
    cleanup_exact[of 2 demo_state demo_env]
  by (simp add: demo_state_def demo_env_def alice_def bob_def carol_def Let_def)

section \<open>The issuing handlers, case by case\<close>

lemma find_email_Some:
  "find (\<lambda>u. email u = e) us = Some u \<Longrightarrow> email u = e \<and> u \<in> set us"
  by (auto dest: find_Some_mem)

lemma update_email_found:
  assumes "find (\<lambda>u. email u = e) (users s) = Some u"
  shows "update_email e f s =
     (Some (f u), \<lparr>users = map (\<lambda>x. if email x = e then f x else x) (users s),
                   trace = trace s @ [UpdateEmail e]\<rparr>)"
  using assms by (simp add: update_email_def update_where_def record_event_def)

lemma signup_invalid:
  "rejected x \<Longrightarrow> signup c en x n s = (failure 400 ''Valid email is required'', s)"
  by (auto simp: rejected_def signup_def includes_at_def split: option.splits)

lemma login_invalid:
  "rejected x \<Longrightarrow> login c en x s = (failure 400 ''Valid email is required'', s)"
  by (auto simp: rejected_def login_def includes_at_def split: option.splits)

lemma resend_invalid:
  "rejected x \<Longrightarrow> resend c en x s = (failure 400 ''Valid email is required'', s)"
  by (auto simp: rejected_def resend_def includes_at_def split: option.splits)

lemma signup_conflict:
  assumes "\<not> rejected (Some e)" "find (\<lambda>u. email u = e) (users s) = Some u" "verified u"
  shows "signup c en (Some e) n s =
     (failure 409 ''Account already exists and verified'',
      s\<lparr>trace := trace s @ [FindUniqueEmail e]\<rparr>)"
  using assms
  by (simp add: rejected_def signup_def includes_at_def findUnique_email_def record_event_def)

lemma signup_update:
  assumes "\<not> rejected (Some e)" "find (\<lambda>u. email u = e) (users s) = Some u" "\<not> verified u"
  shows "signup c en (Some e) n s =
     ((if smtp_ok en
       then ok ''Verification link sent to your email! Check your inbox.''
              (EmailName e (if falsy n then name u else n))
       else failure 500 ''Failed to create account. Please try again.''),
      \<lparr>users = map (\<lambda>x. if email x = e
                          then issue_link en (x\<lparr>name := (if falsy n then name u else n)\<rparr>)
                          else x) (users s),
       trace = trace s @ [FindUniqueEmail e, UpdateEmail e,
                          SendMail e n (magic_link c (random_token en))]\<rparr>)"
proof -
  have "email u = e" using assms(2) by (auto dest: find_Some_mem)
  then show ?thesis
  using assms
  by (simp add: rejected_def signup_def includes_at_def findUnique_email_def record_event_def
      update_email_def update_where_def sendMagicLinkEmail_def issue_link_def)
qed

lemma signup_create:
  assumes "\<not> rejected (Some e)" "find (\<lambda>u. email u = e) (users s) = None"
  shows "signup c en (Some e) n s =
     ((if smtp_ok en
       then ok ''Verification link sent to your email! Check your inbox.'' (EmailName e n)
       else failure 500 ''Failed to create account. Please try again.''),
      \<lparr>users = users s @
          [\<lparr>user_id = fresh_id (users s), email = e, name = n, verified = False,
            createdAt = now en, magicLinkToken = Some (random_token en),
            magicLinkExpires = Some (expiry en), magicLinkUsed = False\<rparr>],
       trace = trace s @ [FindUniqueEmail e, CreateUser e,
                          SendMail e n (magic_link c (random_token en))]\<rparr>)"
  using assms
  by (simp add: rejected_def signup_def includes_at_def findUnique_email_def record_event_def
      create_user_def sendMagicLinkEmail_def Let_def)

lemma login_not_found:
  assumes "\<not> rejected (Some e)"
    "case find (\<lambda>u. email u = e) (users s) of None \<Rightarrow> True | Some u \<Rightarrow> \<not> verified u"
  shows "login c en (Some e) s =
     (failure 404 ''No verified account found with this email'',
      s\<lparr>trace := trace s @ [FindUniqueEmail e]\<rparr>)"
  using assms
  by (auto simp: rejected_def login_def includes_at_def findUnique_email_def record_event_def
      split: option.splits)

lemma login_update:
  assumes "\<not> rejected (Some e)" "find (\<lambda>u. email u = e) (users s) = Some u" "verified u"
  shows "login c en (Some e) s =
     ((if smtp_ok en
       then ok ''Login link sent to your email! Check your inbox.'' (EmailName e (name u))
       else failure 500 ''Failed to send login link. Please try again.''),
      \<lparr>users = map (\<lambda>x. if email x = e then issue_link en x else x) (users s),
       trace = trace s @ [FindUniqueEmail e, UpdateEmail e,
                          SendMail e (name u) (magic_link c (random_token en))]\<rparr>)"
proof -
  have "email u = e" using assms(2) by (auto dest: find_Some_mem)
  then show ?thesis
  using assms
  by (simp add: rejected_def login_def includes_at_def findUnique_email_def record_event_def
      update_email_def update_where_def sendMagicLinkEmail_def)
qed

lemma resend_not_found:
  assumes "\<not> rejected (Some e)" "find (\<lambda>u. email u = e) (users s) = None"
  shows "resend c en (Some e) s =
     (failure 404 ''No account found with this email'',
      s\<lparr>trace := trace s @ [FindUniqueEmail e]\<rparr>)"
  using assms
  by (auto simp: rejected_def resend_def includes_at_def findUnique_email_def record_event_def)

lemma resend_verified:
  assumes "\<not> rejected (Some e)" "find (\<lambda>u. email u = e) (users s) = Some u" "verified u"
  shows "resend c en (Some e) s =
     (failure 400 ''Account is already verified'',
      s\<lparr>trace := trace s @ [FindUniqueEmail e]\<rparr>)"
  using assms
  by (auto simp: rejected_def resend_def includes_at_def findUnique_email_def record_event_def)

lemma resend_update:
  assumes "\<not> rejected (Some e)" "find (\<lambda>u. email u = e) (users s) = Some u" "\<not> verified u"
  shows "resend c en (Some e) s =
     ((if smtp_ok en
       then ok ''New verification link sent to your email!'' (EmailName e (name u))
       else failure 500 ''Failed to send verification link. Please try again.''),
      \<lparr>users = map (\<lambda>x. if email x = e then issue_link en x else x) (users s),
       trace = trace s @ [FindUniqueEmail e, UpdateEmail e,
                          SendMail e (name u) (magic_link c (random_token en))]\<rparr>)"
proof -
  have "email u = e" using assms(2) by (auto dest: find_Some_mem)
  then show ?thesis
  using assms
  by (simp add: rejected_def resend_def includes_at_def findUnique_email_def record_event_def
      update_email_def update_where_def sendMagicLinkEmail_def)
qed


lemma issue_link_fields:
  "magicLinkToken (issue_link en x) = Some (random_token en)"
  "magicLinkExpires (issue_link en x) = Some (now en + 900000)"
  "magicLinkUsed (issue_link en x) = False"
  "email (issue_link en x) = email x"
  "user_id (issue_link en x) = user_id x"
  "verified (issue_link en x) = verified x"
  by (simp_all add: issue_link_def expiry_def)

lemma update_by_email_props:
  assumes "u \<in> set us" "email u = e" "\<And>x. email (f x) = email x"
  shows "\<exists>x \<in> set (map (\<lambda>x. if email x = e then f x else x) us). email x = e"
    and "\<forall>x \<in> set (map (\<lambda>x. if email x = e then f x else x) us).
           email x = e \<longrightarrow> x \<in> f ` set us"
    and "\<forall>x \<in> set (map (\<lambda>x. if email x = e then f x else x) us).
           email x \<noteq> e \<longrightarrow> x \<in> set us"
proof -
  have "f u \<in> set (map (\<lambda>x. if email x = e then f x else x) us)"
    using assms(1,2) by (force simp: image_iff)
  then show "\<exists>x \<in> set (map (\<lambda>x. if email x = e then f x else x) us). email x = e"
    using assms(2,3) by blast
  show "\<forall>x \<in> set (map (\<lambda>x. if email x = e then f x else x) us).
           email x = e \<longrightarrow> x \<in> f ` set us"
    by (auto split: if_splits)
  show "\<forall>x \<in> set (map (\<lambda>x. if email x = e then f x else x) us).
           email x \<noteq> e \<longrightarrow> x \<in> set us"
    using assms(3) by (auto split: if_splits)
qed

lemma issued_by_update:
  assumes "u \<in> set (users s)" "email u = e"
    and "\<And>x. f x = issue_link en (g x)" "\<And>x. email (g x) = email x"
    and "users s' = map (\<lambda>x. if email x = e then f x else x) (users s)"
    and "trace s' = trace s @ [FindUniqueEmail e, UpdateEmail e,
                               SendMail e nm (magic_link c (random_token en))]"
    and "status r = (if smtp_ok en then 200 else 500)" "success r = smtp_ok en"
  shows "issued c en e s r s'"
proof -
  have fe: "\<And>x. email (f x) = email x" by (simp add: assms(3,4) issue_link_fields)
  note p = update_by_email_props[OF assms(1,2) fe]
  have "\<forall>x \<in> set (users s'). email x = e \<longrightarrow>
        magicLinkToken x = Some (random_token en) \<and>
        magicLinkExpires x = Some (now en + 900000) \<and> \<not> magicLinkUsed x"
    using p(2) unfolding assms(5) by (auto simp: assms(3) issue_link_fields)
  then show ?thesis
    unfolding issued_def using p(1,3) assms(6,7,8) unfolding assms(5) by blast
qed

lemma signup_shape:
  assumes "\<not> rejected (Some e)" "signup c en (Some e) n s = (r, s')"
  shows "(status r = 409 \<and> \<not> success r \<and>
          message r \<noteq> ''Valid email is required'' \<and>
          users s' = users s \<and> trace s' = trace s @ [FindUniqueEmail e]) \<or>
         issued c en e s r s'"
proof (cases "find (\<lambda>u. email u = e) (users s)")
  case None
  then have "\<forall>x \<in> set (users s). email x \<noteq> e" by (simp add: find_None_iff)
  then show ?thesis
    using signup_create[OF assms(1) None, of c en n] assms(2)
    by (auto simp: issued_def ok_def failure_def expiry_def)
next
  case (Some u)
  have m: "u \<in> set (users s)" "email u = e" using Some by (auto dest: find_Some_mem)
  show ?thesis
  proof (cases "verified u")
    case True
    then show ?thesis
      using signup_conflict[OF assms(1) Some True, of c en n] assms(2)
      by (auto simp: failure_def)
  next
    case False
    have "issued c en e s r s'"
      using signup_update[OF assms(1) Some False, of c en n] assms(2)
      by (intro issued_by_update[OF m, where g = "\<lambda>x. x\<lparr>name := (if falsy n then name u else n)\<rparr>"])
         (auto simp: ok_def failure_def)
    then show ?thesis ..
  qed
qed


lemma login_shape:
  assumes "\<not> rejected (Some e)" "login c en (Some e) s = (r, s')"
  shows "(status r = 404 \<and> \<not> success r \<and>
          message r \<noteq> ''Valid email is required'' \<and>
          users s' = users s \<and> trace s' = trace s @ [FindUniqueEmail e]) \<or>
         issued c en e s r s'"
proof (cases "find (\<lambda>u. email u = e) (users s)")
  case None
  then show ?thesis
    using login_not_found[OF assms(1), of s c en] assms(2) by (auto simp: failure_def)
next
  case (Some u)
  have m: "u \<in> set (users s)" "email u = e" using Some by (auto dest: find_Some_mem)
  show ?thesis
  proof (cases "verified u")
    case False
    then show ?thesis
      using login_not_found[OF assms(1), of s c en] Some assms(2) by (auto simp: failure_def)
  next
    case True
    have "issued c en e s r s'"
      using login_update[OF assms(1) Some True, of c en] assms(2)
      by (intro issued_by_update[OF m, where g = "\<lambda>x. x"]) (auto simp: ok_def failure_def)
    then show ?thesis ..
  qed
qed

lemma resend_shape:
  assumes "\<not> rejected (Some e)" "resend c en (Some e) s = (r, s')"
  shows "((status r = 404 \<or> status r = 400) \<and> \<not> success r \<and>
          message r \<noteq> ''Valid email is required'' \<and>
          users s' = users s \<and> trace s' = trace s @ [FindUniqueEmail e]) \<or>
         issued c en e s r s'"
proof (cases "find (\<lambda>u. email u = e) (users s)")
  case None
  then show ?thesis
    using resend_not_found[OF assms(1), of s c en] assms(2) by (auto simp: failure_def)
next
  case (Some u)
  have m: "u \<in> set (users s)" "email u = e" using Some by (auto dest: find_Some_mem)
  show ?thesis
  proof (cases "verified u")
    case True
    then show ?thesis
      using resend_verified[OF assms(1) Some, of c en] assms(2) by (auto simp: failure_def)
  next
    case False
    have "issued c en e s r s'"
      using resend_update[OF assms(1) Some False, of c en] assms(2)
      by (intro issued_by_update[OF m, where g = "\<lambda>x. x"]) (auto simp: ok_def failure_def)
    then show ?thesis ..
  qed
qed


lemma handle_rejected:
  assumes "is_issuance rq" "rejected (email_of rq)"
  shows "handle c en rq s = (failure 400 ''Valid email is required'', s)"
  using assms by (cases rq) (simp_all add: signup_invalid login_invalid resend_invalid)

lemma handle_shape:
  assumes "is_issuance rq" "email_of rq = Some e" "\<not> rejected (Some e)"
    "handle c en rq s = (r, s')"
  shows "(status r \<in> {400, 404, 409} \<and> \<not> success r \<and>
          message r \<noteq> ''Valid email is required'' \<and>
          users s' = users s \<and> trace s' = trace s @ [FindUniqueEmail e]) \<or>
         issued c en e s r s'"
proof (cases rq)
  case (Signup x n)
  then show ?thesis using assms signup_shape[OF assms(3), of c en n s r s'] by auto
next
  case (Login x)
  then show ?thesis using assms login_shape[OF assms(3), of c en s r s'] by auto
next
  case (Resend x)
  then show ?thesis using assms resend_shape[OF assms(3), of c en s r s'] by auto
qed (use assms in auto)

section \<open>Input validation\<close>

text \<open>
  C10. In signup, login and resend the request is answered 400
  \<open>Valid email is required\<close> exactly when the email field is absent, empty or has no
  \<open>@\<close>; an email that contains \<open>@\<close> (such as \<open>@\<close> alone, or \<open>a@\<close>) passes, and
  the next thing the handler does is the lookup of that email in the repository.
\<close>

theorem email_check_is_at_sign:
  assumes "is_issuance rq"
  shows "(fst (handle c en rq s) =
            \<lparr>status = 400, success = False, message = ''Valid email is required'',
             data = NoData, set_cookie = None\<rparr> \<longleftrightarrow>
          (case email_of rq of None \<Rightarrow> True | Some e \<Rightarrow> e = [] \<or> CHR ''@'' \<notin> set e)) \<and>
         (\<forall>e. email_of rq = Some e \<and> CHR ''@'' \<in> set e \<longrightarrow>
            (\<exists>evs. trace (snd (handle c en rq s)) = trace s @ FindUniqueEmail e # evs))"
proof (cases "rejected (email_of rq)")
  case True
  then show ?thesis
    using handle_rejected[OF assms True, of c en s]
    by (auto simp: rejected_def failure_def split: option.splits)
next
  case False
  then obtain e where e: "email_of rq = Some e" "\<not> rejected (Some e)" "CHR ''@'' \<in> set e"
    by (auto simp: rejected_def split: option.splits)
  obtain r s' where h: "handle c en rq s = (r, s')" by (cases "handle c en rq s")
  from handle_shape[OF assms e(1,2) h]
  have "message r \<noteq> ''Valid email is required'' \<or> status r \<noteq> 400"
    by (auto simp: issued_def split: if_splits)
  moreover from handle_shape[OF assms e(1,2) h]
  have "\<exists>evs. trace s' = trace s @ FindUniqueEmail e # evs"
    by (auto simp: issued_def)
  ultimately show ?thesis using e h False
    by (auto simp: rejected_def)
qed

theorem email_check_is_at_sign_witness:
  "is_issuance (Login (Some ''@'')) \<and> is_issuance (Signup (Some ''a@'') None) \<and>
   is_issuance (Resend (Some ''ax'')) \<and>
   fst (handle demo_cfg demo_env (Login (Some ''@'')) demo_state) \<noteq>
     \<lparr>status = 400, success = False, message = ''Valid email is required'',
      data = NoData, set_cookie = None\<rparr> \<and>
   fst (handle demo_cfg demo_env (Signup (Some ''a@'') None) demo_state) \<noteq>
     \<lparr>status = 400, success = False, message = ''Valid email is required'',
      data = NoData, set_cookie = None\<rparr> \<and>
   fst (handle demo_cfg demo_env (Resend (Some ''ax'')) demo_state) =
     \<lparr>status = 400, success = False, message = ''Valid email is required'',
      data = NoData, set_cookie = None\<rparr>"
  using email_check_is_at_sign[of "Login (Some ''@'')" demo_cfg demo_env demo_state]
    email_check_is_at_sign[of "Signup (Some ''a@'') None" demo_cfg demo_env demo_state]
    email_check_is_at_sign[of "Resend (Some ''ax'')" demo_cfg demo_env demo_state]
  by simp

section \<open>Issuance\<close>

text \<open>
  C8. An issuing handler either rejects the request, writing nothing and sending
  nothing, or it looks the email up, writes the new link to the record, and only then
  calls the mail transport with the link that carries the stored token. When the
  transport fails the response is 500 with \<open>success = false\<close>.
\<close>

theorem issuance_persists_then_dispatches:
  assumes "is_issuance rq" and "handle c en rq s = (r, s')"
  shows "(users s' = users s \<and> \<not> success r \<and>
          (trace s' = trace s \<or>
           (\<exists>e. email_of rq = Some e \<and> trace s' = trace s @ [FindUniqueEmail e]))) \<or>
         (\<exists>e w nm. email_of rq = Some e \<and> (w = UpdateEmail e \<or> w = CreateUser e) \<and>
            trace s' =
              trace s @ [FindUniqueEmail e, w, SendMail e nm (magic_link c (random_token en))] \<and>
            (\<exists>x \<in> set (users s'). email x = e) \<and>
            (\<forall>x \<in> set (users s'). email x = e \<longrightarrow>
               magicLinkToken x = Some (random_token en) \<and>
               magicLinkExpires x = Some (now en + 15 * 60 * 1000) \<and> \<not> magicLinkUsed x) \<and>
            (smtp_ok en \<longrightarrow> status r = 200 \<and> success r) \<and>
            (\<not> smtp_ok en \<longrightarrow> status r = 500 \<and> \<not> success r))"
proof (cases "rejected (email_of rq)")
  case True
  then show ?thesis
    using handle_rejected[OF assms(1) True, of c en s] assms(2)
    by (auto simp: failure_def)
next
  case False
  then obtain e where e: "email_of rq = Some e" "\<not> rejected (Some e)"
    by (auto simp: rejected_def split: option.splits)
  from handle_shape[OF assms(1) e assms(2)]
  show ?thesis
  proof
    assume "status r \<in> {400, 404, 409} \<and> \<not> success r \<and>
          message r \<noteq> ''Valid email is required'' \<and>
          users s' = users s \<and> trace s' = trace s @ [FindUniqueEmail e]"
    then show ?thesis using e(1) by blast
  next
    assume i: "issued c en e s r s'"
    then obtain w nm where w: "w = UpdateEmail e \<or> w = CreateUser e"
      "trace s' =
         trace s @ [FindUniqueEmail e, w, SendMail e nm (magic_link c (random_token en))]"
      unfolding issued_def by blast
    show ?thesis
      apply (rule disjI2)
      apply (rule exI[of _ e], rule exI[of _ w], rule exI[of _ nm])
      using i w e(1) unfolding issued_def by (simp split: if_splits)
  qed
qed

theorem issuance_persists_then_dispatches_witness:
  "is_issuance (Login (Some ''b@x'')) \<and>
   status (fst (handle demo_cfg demo_env_down (Login (Some ''b@x'')) demo_state)) = 500 \<and>
   \<not> success (fst (handle demo_cfg demo_env_down (Login (Some ''b@x'')) demo_state)) \<and>
   trace (snd (handle demo_cfg demo_env_down (Login (Some ''b@x'')) demo_state)) =
     [FindUniqueEmail ''b@x'', UpdateEmail ''b@x'',
      SendMail ''b@x'' None ''http://h/verify?token=t9'']"
proof -
  have i: "is_issuance (Login (Some ''b@x''))" by simp
  have nr: "\<not> rejected (Some ''b@x'')" by (simp add: rejected_def)
  have f: "find (\<lambda>u. email u = ''b@x'') (users demo_state) = Some bob"
    by (simp add: demo_state_def alice_def bob_def)
  have v: "verified bob" by (simp add: bob_def)
  have h: "handle demo_cfg demo_env_down (Login (Some ''b@x'')) demo_state =
      (failure 500 ''Failed to send login link. Please try again.'',
       \<lparr>users = map (\<lambda>x. if email x = ''b@x'' then issue_link demo_env_down x else x)
                  (users demo_state),
        trace = trace demo_state @
          [FindUniqueEmail ''b@x'', UpdateEmail ''b@x'',
           SendMail ''b@x'' (name bob) (magic_link demo_cfg (random_token demo_env_down))]\<rparr>)"
    using login_update[OF nr f v, of demo_cfg demo_env_down]
    by (simp add: demo_env_down_def)
  have "status (fst (handle demo_cfg demo_env_down (Login (Some ''b@x'')) demo_state)) = 500 \<and>
   \<not> success (fst (handle demo_cfg demo_env_down (Login (Some ''b@x'')) demo_state)) \<and>
   trace (snd (handle demo_cfg demo_env_down (Login (Some ''b@x'')) demo_state)) =
     [FindUniqueEmail ''b@x'', UpdateEmail ''b@x'',
      SendMail ''b@x'' None ''http://h/verify?token=t9'']"
    unfolding h fst_conv snd_conv
    using issuance_persists_then_dispatches[OF i h]
    by (simp add: failure_def demo_state_def demo_env_down_def magic_link_def demo_cfg_def
        bob_def)
  with i show ?thesis by blast
qed

text \<open>
  C6. In a store with unique keys whose emails all passed the input check, a signup for
  the email of a verified user is answered 409 \<open>Account already exists and verified\<close>.
  The store is left as it was: no record is changed, and the only call the handler makes
  is the lookup of the email, so no mail is sent.
\<close>

theorem signup_verified_no_mutation:
  assumes "unique_keys (users s)"
    and "\<forall>x \<in> set (users s). CHR ''@'' \<in> set (email x)"
    and "u \<in> set (users s)" and "verified u"
  shows "signup c en (Some (email u)) n s =
     (\<lparr>status = 409, success = False, message = ''Account already exists and verified'',
       data = NoData, set_cookie = None\<rparr>,
      s\<lparr>trace := trace s @ [FindUniqueEmail (email u)]\<rparr>)"
proof -
  have nr: "\<not> rejected (Some (email u))"
    using assms(2,3) by (auto simp: rejected_def)
  have "distinct (map email (users s))" using assms(1) by (simp add: unique_keys_def)
  from find_unique_key[OF this assms(3)]
  have f: "find (\<lambda>x. email x = email u) (users s) = Some u" .
  show ?thesis
    using signup_conflict[OF nr f assms(4), of c en n] by (simp add: failure_def)
qed

theorem signup_verified_no_mutation_witness:
  "unique_keys (users demo_state) \<and> bob \<in> set (users demo_state) \<and> verified bob \<and>
   CHR ''@'' \<in> set (email alice) \<and> CHR ''@'' \<in> set (email bob) \<and>
   CHR ''@'' \<in> set (email carol) \<and>
   signup demo_cfg demo_env (Some ''b@x'') (Some ''B'') demo_state =
     (\<lparr>status = 409, success = False, message = ''Account already exists and verified'',
       data = NoData, set_cookie = None\<rparr>,
      \<lparr>users = [alice, bob, carol], trace = [FindUniqueEmail ''b@x'']\<rparr>)"
proof -
  have m: "bob \<in> set (users demo_state)" by (simp add: demo_state_def)
  have v: "verified bob" by (simp add: bob_def)
  have a: "\<forall>x \<in> set (users demo_state). CHR ''@'' \<in> set (email x)"
    by (simp add: demo_state_def alice_def bob_def carol_def)
  have e: "email bob = ''b@x''" by (simp add: bob_def)
  have d: "demo_state\<lparr>trace := trace demo_state @ [FindUniqueEmail ''b@x'']\<rparr> =
      \<lparr>users = [alice, bob, carol], trace = [FindUniqueEmail ''b@x'']\<rparr>"
    by (simp add: demo_state_def)
  have "signup demo_cfg demo_env (Some ''b@x'') (Some ''B'') demo_state =
     (\<lparr>status = 409, success = False, message = ''Account already exists and verified'',
       data = NoData, set_cookie = None\<rparr>,
      \<lparr>users = [alice, bob, carol], trace = [FindUniqueEmail ''b@x'']\<rparr>)"
    using signup_verified_no_mutation[OF demo_unique a m v, of demo_cfg demo_env "Some ''B''"]
    unfolding e d .
  moreover have "CHR ''@'' \<in> set (email alice) \<and> CHR ''@'' \<in> set (email bob) \<and>
      CHR ''@'' \<in> set (email carol)"
    by (simp add: alice_def bob_def carol_def)
  ultimately show ?thesis using demo_unique m v by blast
qed

section \<open>The current user\<close>




section \<open>Tokens that no record holds\<close>








section \<open>Runs\<close>

lemma verify_users:
  "users (snd (verify c en tk s)) = users s \<or>
   (\<exists>u::user. users (snd (verify c en tk s)) =
      map (\<lambda>x. if user_id x = user_id u then consume_link x else x) (users s))"
proof (cases tk)
  case None
  then show ?thesis by (simp add: verify_def)
next
  case (Some t)
  show ?thesis
  proof (cases "t = []")
    case True
    then show ?thesis using Some by (simp add: verify_def)
  next
    case False
    show ?thesis
    proof (cases "find (token_matches t (now en)) (users s)")
      case None
      then show ?thesis using verify_not_found[OF None False, of c] Some by simp
    next
      case (Some u)
      from verify_found[OF Some False, of c]
      have "users (snd (verify c en tk s)) =
          map (\<lambda>x. if user_id x = user_id u then consume_link x else x) (users s)"
        using \<open>tk = Some t\<close> by auto
      then show ?thesis by (intro disjI2 exI[of _ u])
    qed
  qed
qed

lemma me_users: "users (snd (me c en k s)) = users s"
  by (auto simp: me_def findUnique_id_def record_event_def
      split: option.splits sum.splits)










section \<open>Interleaved verifications\<close>








section \<open>The invariants of the store are kept\<close>

lemma foldr_max_ge: "x \<in> set xs \<Longrightarrow> x \<le> foldr max xs (0::nat)"
  by (induction xs) (auto simp: max_def)

lemma fresh_id_fresh: "fresh_id us \<notin> user_id ` set us"
proof
  assume "fresh_id us \<in> user_id ` set us"
  then have "fresh_id us \<in> set (map user_id us)" by simp
  from foldr_max_ge[OF this] show False by (simp add: fresh_id_def)
qed

lemma unique_keys_update:
  assumes "\<And>x. user_id (f x) = user_id x" "\<And>x. email (f x) = email x"
  shows "unique_keys (map (\<lambda>x. if p x then f x else x) us) = unique_keys us"
proof -
  have "map user_id (map (\<lambda>x. if p x then f x else x) us) = map user_id us"
    "map email (map (\<lambda>x. if p x then f x else x) us) = map email us"
    using assms by (induction us) auto
  then show ?thesis by (simp only: unique_keys_def)
qed

lemma unique_keys_signup:
  assumes "unique_keys (users s)"
  shows "unique_keys (users (snd (signup c en x n s)))"
proof (cases "rejected x")
  case True
  then show ?thesis using assms by (simp add: signup_invalid)
next
  case False
  then obtain e where e: "x = Some e" "\<not> rejected (Some e)"
    by (auto simp: rejected_def split: option.splits)
  show ?thesis
  proof (cases "find (\<lambda>u. email u = e) (users s)")
    case None
    then have "e \<notin> email ` set (users s)" by (auto simp: find_None_iff)
    then show ?thesis
      using signup_create[OF e(2) None, of c en n] assms e(1) fresh_id_fresh[of "users s"]
      by (simp add: unique_keys_def)
  next
    case (Some u)
    show ?thesis
    proof (cases "verified u")
      case True
      then show ?thesis using signup_conflict[OF e(2) Some True, of c en n] assms e(1) by simp
    next
      case False
      show ?thesis
        using signup_update[OF e(2) Some False, of c en n] assms e(1)
        by (simp add: unique_keys_update issue_link_fields)
    qed
  qed
qed

lemma unique_keys_login:
  assumes "unique_keys (users s)"
  shows "unique_keys (users (snd (login c en x s)))"
proof (cases "rejected x")
  case True
  then show ?thesis using assms by (simp add: login_invalid)
next
  case False
  then obtain e where e: "x = Some e" "\<not> rejected (Some e)"
    by (auto simp: rejected_def split: option.splits)
  show ?thesis
  proof (cases "find (\<lambda>u. email u = e) (users s)")
    case None
    then show ?thesis using login_not_found[OF e(2), of s c en] assms e(1) by simp
  next
    case (Some u)
    show ?thesis
    proof (cases "verified u")
      case False
      then show ?thesis using login_not_found[OF e(2), of s c en] Some assms e(1) by simp
    next
      case True
      show ?thesis
        using login_update[OF e(2) Some True, of c en] assms e(1)
        by (simp add: unique_keys_update issue_link_fields)
    qed
  qed
qed

lemma unique_keys_resend:
  assumes "unique_keys (users s)"
  shows "unique_keys (users (snd (resend c en x s)))"
proof (cases "rejected x")
  case True
  then show ?thesis using assms by (simp add: resend_invalid)
next
  case False
  then obtain e where e: "x = Some e" "\<not> rejected (Some e)"
    by (auto simp: rejected_def split: option.splits)
  show ?thesis
  proof (cases "find (\<lambda>u. email u = e) (users s)")
    case None
    then show ?thesis using resend_not_found[OF e(2) None, of c en] assms e(1) by simp
  next
    case (Some u)
    show ?thesis
    proof (cases "verified u")
      case True
      then show ?thesis using resend_verified[OF e(2) Some True, of c en] assms e(1) by simp
    next
      case False
      show ?thesis
        using resend_update[OF e(2) Some False, of c en] assms e(1)
        by (simp add: unique_keys_update issue_link_fields)
    qed
  qed
qed

lemma unique_keys_act:
  assumes "unique_keys (users s)"
  shows "unique_keys (users (act c a s))"
proof (cases a)
  case (Pair en b)
  show ?thesis
  proof (cases b)
    case Sweep
    then show ?thesis
      using Pair assms by (simp add: cleanup_users unique_keys_update clear_link_def)
  next
    case (Request rq)
    show ?thesis
    proof (cases rq)
      case (Verify tk)
      then show ?thesis
        using verify_users[of c en tk s] Pair Request assms
        by (auto simp: unique_keys_update consume_link_def)
    qed (use Pair Request assms in
          \<open>simp_all add: unique_keys_signup unique_keys_login unique_keys_resend me_users\<close>)
  qed
qed

lemma unique_keys_run:
  "unique_keys (users s) \<Longrightarrow> unique_keys (users (run c as s))"
  by (induction as arbitrary: s) (simp_all add: unique_keys_act)

lemma emails_checked_act:
  assumes "\<forall>x \<in> set (users s). CHR ''@'' \<in> set (email x)"
  shows "\<forall>x \<in> set (users (act c a s)). CHR ''@'' \<in> set (email x)"
proof (cases a)
  case (Pair en b)
  show ?thesis
  proof (cases b)
    case Sweep
    then show ?thesis using Pair assms by (auto simp: cleanup_users clear_link_def)
  next
    case (Request rq)
    show ?thesis
    proof (cases "is_issuance rq")
      case True
      show ?thesis
      proof (cases "rejected (email_of rq)")
        case True
        then show ?thesis
          using handle_rejected[OF \<open>is_issuance rq\<close> True, of c en s] Pair Request assms
          by simp
      next
        case False
        then obtain e where e: "email_of rq = Some e" "\<not> rejected (Some e)"
          by (auto simp: rejected_def split: option.splits)
        obtain r s' where h: "handle c en rq s = (r, s')" by (cases "handle c en rq s")
        have "\<forall>x \<in> set (users s'). CHR ''@'' \<in> set (email x)"
          using handle_shape[OF True e h]
        proof
          assume i: "issued c en e s r s'"
          show ?thesis
          proof
            fix x assume x: "x \<in> set (users s')"
            show "CHR ''@'' \<in> set (email x)"
            proof (cases "email x = e")
              case True
              then show ?thesis using e(2) by (simp add: rejected_def)
            next
              case False
              then have "x \<in> set (users s)" using i x unfolding issued_def by blast
              then show ?thesis using assms by blast
            qed
          qed
        qed (use assms in simp)
        then show ?thesis using Pair Request h by simp
      qed
    next
      case False
      then show ?thesis
      proof (cases rq)
        case (Verify tk)
        then show ?thesis
          using verify_users[of c en tk s] Pair Request assms
          by (auto simp: consume_link_def)
      next
        case (Me k)
        then show ?thesis using Pair Request assms by (simp add: me_users)
      qed simp_all
    qed
  qed
qed

lemma emails_checked_run:
  "\<forall>x \<in> set (users s). CHR ''@'' \<in> set (email x) \<Longrightarrow>
   \<forall>x \<in> set (users (run c as s)). CHR ''@'' \<in> set (email x)"
proof (induction as arbitrary: s)
  case Nil
  then show ?case by simp
next
  case (Cons a as)
  show ?case using Cons.IH[OF emails_checked_act[OF Cons.prems]] by simp
qed

end
